theory Spec2Isabelle
  imports Complex_Main "HOL-Library.Sublist" "HOL-Library.Char_ord" "HOL-Library.List_Lexorder"
begin

section \<open>Strings\<close>

text \<open>
  The program works on Python \<open>str\<close> values. A \<^typ>\<open>string\<close> here is a list of
  characters, one \<^typ>\<open>char\<close> per code point, so the model covers the code points
  below 256 (Latin-1). The character classes below are Python's, restricted to
  that range, and are given by code point.
\<close>

definition isspace :: "char \<Rightarrow> bool" where
  \<comment> \<open>the characters \<open>str.strip()\<close> removes: \<open>str.isspace\<close>\<close>
  "isspace c = (let n = (of_char c :: int) in
     (9 \<le> n \<and> n \<le> 13) \<or> (28 \<le> n \<and> n \<le> 32) \<or> n = 133 \<or> n = 160)"

definition isdecimal :: "char \<Rightarrow> bool" where
  \<comment> \<open>what \<open>\d\<close> matches in a \<open>str\<close> pattern\<close>
  "isdecimal c = (let n = (of_char c :: int) in 48 \<le> n \<and> n \<le> 57)"

definition lower_char :: "char \<Rightarrow> char" where
  "lower_char c = (let n = (of_char c :: int) in
     if (65 \<le> n \<and> n \<le> 90) \<or> (192 \<le> n \<and> n \<le> 222 \<and> n \<noteq> 215)
     then char_of (n + 32) else c)"

definition lower :: "string \<Rightarrow> string" where
  "lower s = map lower_char s"

definition lstrip :: "string \<Rightarrow> string" where
  "lstrip s = dropWhile isspace s"

definition rstrip :: "string \<Rightarrow> string" where
  "rstrip s = rev (dropWhile isspace (rev s))"

definition strip :: "string \<Rightarrow> string" where
  "strip s = rstrip (lstrip s)"

definition lstrip_chars :: "string \<Rightarrow> string \<Rightarrow> string" where
  \<comment> \<open>\<open>s.lstrip(chars)\<close>\<close>
  "lstrip_chars chars s = dropWhile (\<lambda>c. c \<in> set chars) s"

definition replace_char :: "char \<Rightarrow> string \<Rightarrow> string \<Rightarrow> string" where
  \<comment> \<open>\<open>s.replace(old, new)\<close> for a one-character \<open>old\<close>\<close>
  "replace_char old new s = concat (map (\<lambda>c. if c = old then new else [c]) s)"

fun contains :: "string \<Rightarrow> string \<Rightarrow> bool" where
  \<comment> \<open>\<open>key in text\<close>\<close>
  "contains key [] = (key = [])"
| "contains key (c # cs) = (prefix key (c # cs) \<or> contains key cs)"

section \<open>The three patterns\<close>

fun match_seq :: "(char \<Rightarrow> bool) list \<Rightarrow> string \<Rightarrow> string option" where
  \<comment> \<open>a sequence of one-character tests at the start of \<open>s\<close>; the rest of \<open>s\<close> on success\<close>
  "match_seq [] s = Some s"
| "match_seq (p # ps) [] = None"
| "match_seq (p # ps) (c # cs) = (if p c then match_seq ps cs else None)"

definition lit :: "char \<Rightarrow> char \<Rightarrow> bool" where
  "lit p c = (c = p)"

fun ci_lit :: "string \<Rightarrow> string \<Rightarrow> string option" where
  \<comment> \<open>a literal under \<open>re.IGNORECASE\<close>, at the start of \<open>s\<close>; the rest of \<open>s\<close> on success\<close>
  "ci_lit [] s = Some s"
| "ci_lit (a # p) [] = None"
| "ci_lit (a # p) (c # cs) = (if lower_char c = lower_char a then ci_lit p cs else None)"

definition DATE_RE_match :: "string \<Rightarrow> bool" where
  \<comment> \<open>\<open>DATE_RE.match(line)\<close> with \<open>DATE_RE = ^\d{2}\.\d{2}\.\d{4}\<close>\<close>
  "DATE_RE_match s =
     (match_seq [isdecimal, isdecimal, lit CHR ''.'', isdecimal, isdecimal, lit CHR ''.'',
                 isdecimal, isdecimal, isdecimal, isdecimal] s \<noteq> None)"

text \<open>
  \<open>AMOUNT_RE = -?\d{1,3}(?:\.\d{3})*,\d{2}\<close>. The matcher follows the backtracking
  order of the pattern: the sign is tried before its absence, three digits before two
  before one, one more thousands group before none.
\<close>

lemma match_seq_length: "match_seq ps s = Some r \<Longrightarrow> length s = length ps + length r"
  by (induction ps s rule: match_seq.induct) (auto split: if_splits)

definition amount_tail :: "string \<Rightarrow> string option" where
  "amount_tail s = match_seq [lit CHR '','', isdecimal, isdecimal] s"

function amount_groups :: "string \<Rightarrow> string option" where
  "amount_groups s =
     (case match_seq [lit CHR ''.'', isdecimal, isdecimal, isdecimal] s of
        Some r \<Rightarrow> (case amount_groups r of Some e \<Rightarrow> Some e | None \<Rightarrow> amount_tail s)
      | None \<Rightarrow> amount_tail s)"
  by pat_completeness auto
termination
  by (relation "measure length") (auto dest: match_seq_length)

declare amount_groups.simps [simp del]

definition amount_digits :: "nat \<Rightarrow> string \<Rightarrow> string option" where
  "amount_digits k s = Option.bind (match_seq (replicate k isdecimal) s) amount_groups"

definition amount_body :: "string \<Rightarrow> string option" where
  "amount_body s =
     (case amount_digits 3 s of Some e \<Rightarrow> Some e | None \<Rightarrow>
      (case amount_digits 2 s of Some e \<Rightarrow> Some e | None \<Rightarrow> amount_digits 1 s))"

definition AMOUNT_RE_match :: "string \<Rightarrow> string option" where
  \<comment> \<open>a match starting at the first character of \<open>s\<close>: what follows the match\<close>
  "AMOUNT_RE_match s =
     (case s of
        c # cs \<Rightarrow> if c = CHR ''-''
                  then (case amount_body cs of Some e \<Rightarrow> Some e | None \<Rightarrow> amount_body s)
                  else amount_body s
      | [] \<Rightarrow> None)"

lemma AMOUNT_RE_match_shorter: "AMOUNT_RE_match s = Some r \<Longrightarrow> length r < length s"
proof -
  have groups: "amount_groups s = Some r \<Longrightarrow> length r < length s" for s r
  proof (induction s rule: amount_groups.induct)
    case (1 s)
    show ?case
    proof (cases "match_seq [lit CHR ''.'', isdecimal, isdecimal, isdecimal] s")
      case None
      with "1.prems" have "amount_tail s = Some r" by (simp add: amount_groups.simps [of s])
      then show ?thesis by (auto simp: amount_tail_def dest: match_seq_length)
    next
      case (Some q)
      show ?thesis
      proof (cases "amount_groups q")
        case None
        with Some "1.prems" have "amount_tail s = Some r"
          by (simp add: amount_groups.simps [of s])
        then show ?thesis by (auto simp: amount_tail_def dest: match_seq_length)
      next
        case inner: (Some e)
        with Some "1.prems" have "e = r" by (simp add: amount_groups.simps [of s])
        with inner "1.IH" [OF Some] have "length r < length q" by simp
        moreover from Some have "length q \<le> length s" by (auto dest: match_seq_length)
        ultimately show ?thesis by simp
      qed
    qed
  qed
  have digits: "amount_digits k s = Some r \<Longrightarrow> length r < length s" for k s r
  proof -
    assume "amount_digits k s = Some r"
    then obtain q where q: "match_seq (replicate k isdecimal) s = Some q"
      and r: "amount_groups q = Some r"
      by (auto simp: amount_digits_def Option.bind_eq_Some_conv)
    from q have "length q \<le> length s" by (auto dest: match_seq_length)
    with groups [OF r] show ?thesis by simp
  qed
  have body: "amount_body s = Some r \<Longrightarrow> length r < length s" for s r
    by (auto simp: amount_body_def split: option.splits dest: digits)
  assume "AMOUNT_RE_match s = Some r"
  then show ?thesis
    by (cases s) (auto simp: AMOUNT_RE_match_def split: if_splits option.splits
        dest: body less_SucI)
qed

function AMOUNT_RE_findall :: "string \<Rightarrow> string list" where
  \<comment> \<open>\<open>AMOUNT_RE.findall(line)\<close>: the matches from left to right, not overlapping\<close>
  "AMOUNT_RE_findall s =
     (if s = [] then []
      else case AMOUNT_RE_match s of
             Some r \<Rightarrow> take (length s - length r) s # AMOUNT_RE_findall r
           | None \<Rightarrow> AMOUNT_RE_findall (tl s))"
  by pat_completeness auto
termination
  by (relation "measure length") (auto dest: AMOUNT_RE_match_shorter)

declare AMOUNT_RE_findall.simps [simp del]

text \<open>
  \<open>END_MARKER_RE\<close>: six alternatives under \<open>re.IGNORECASE\<close>, looked for anywhere in
  the line (\<open>search\<close>). In \<open>Seite \d+ von\<close> one more digit is tried before the rest of
  the pattern.
\<close>

fun digits_then_von :: "string \<Rightarrow> bool" where
  "digits_then_von [] = False"
| "digits_then_von (c # cs) =
     ((isdecimal c \<and> digits_then_von cs) \<or> ci_lit '' von'' (c # cs) \<noteq> None)"

definition END_MARKER_RE_match :: "string \<Rightarrow> bool" where
  "END_MARKER_RE_match s =
     (ci_lit ''Kontostand am'' s \<noteq> None
      \<or> ci_lit ''Gesamtumsatzsummen'' s \<noteq> None
      \<or> ci_lit ''Ihr Dispositionskredit'' s \<noteq> None
      \<or> ci_lit ''Hinweise zum Kontoauszug'' s \<noteq> None
      \<or> ci_lit ''Deutsche Kreditbank AG'' s \<noteq> None
      \<or> (case ci_lit ''Seite '' s of
            Some (c # cs) \<Rightarrow> isdecimal c \<and> digits_then_von cs
          | _ \<Rightarrow> False))"

fun END_MARKER_RE_search :: "string \<Rightarrow> bool" where
  "END_MARKER_RE_search [] = END_MARKER_RE_match []"
| "END_MARKER_RE_search (c # cs) = (END_MARKER_RE_match (c # cs) \<or> END_MARKER_RE_search cs)"

section \<open>Bookings and the line parser\<close>

text \<open>
  A booking is the dictionary \<open>parse_lines\<close> creates. \<open>Name\<close>, \<open>Beschreibung\<close> and
  \<open>Quelle\<close> are keys added later, so they may be absent.
\<close>

record booking =
  Datum :: string
  Buchungsart :: string
  Textblock :: string
  Soll :: string
  Haben :: string
  Name :: "string option"
  Beschreibung :: "string option"
  Quelle :: "string option"

definition normalize_amount :: "string \<Rightarrow> string" where
  "normalize_amount val =
     (if val = [] then [] else replace_char CHR '','' ''.'' (replace_char CHR ''.'' [] val))"

definition format_amount :: "booking \<Rightarrow> string" where
  "format_amount b =
     (if Soll b \<noteq> [] then ''-'' @ Soll b @ '' EUR''
      else if Haben b \<noteq> [] then ''+'' @ Haben b @ '' EUR''
      else ''0,00 EUR'')"

definition new_booking :: "string \<Rightarrow> booking" where
  \<comment> \<open>the branch of \<open>parse_lines\<close> for a line that starts with a date\<close>
  "new_booking line0 =
     (let date = take 10 line0;
          line = strip (drop 10 line0);
          amounts = AMOUNT_RE_findall line;
          debit = (amounts \<noteq> [] \<and> CHR ''-'' \<in> set (last amounts));
          credit = (amounts \<noteq> [] \<and> CHR ''-'' \<notin> set (last amounts))
      in \<lparr> Datum = date,
           Buchungsart = strip (take 20 line),
           Textblock = [],
           Soll = (if debit then normalize_amount (last amounts) else []),
           Haben = (if credit then normalize_amount (last amounts) else []),
           Name = None, Beschreibung = None, Quelle = None \<rparr>)"

text \<open>
  The loop of \<open>parse_lines\<close> as a step on its variables; \<open>stopped\<close> is set by the
  \<open>break\<close>. The variable \<open>seen_description\<close> is written and never read, and is left out.
\<close>

record pstate =
  bookings :: "booking list"
  current :: "booking option"
  stopped :: bool

definition close_current :: "pstate \<Rightarrow> booking list" where
  \<comment> \<open>\<open>if current: bookings.append(current)\<close>\<close>
  "close_current st = (case current st of Some c \<Rightarrow> bookings st @ [c] | None \<Rightarrow> bookings st)"

definition append_text :: "string \<Rightarrow> string \<Rightarrow> string" where
  "append_text tb clean = (if tb \<noteq> [] then tb @ '' '' @ clean else clean)"

definition parse_step :: "pstate \<Rightarrow> string \<Rightarrow> pstate" where
  "parse_step st raw =
     (if stopped st then st
      else let line = rstrip raw in
        if DATE_RE_match line
        then \<lparr> bookings = close_current st, current = Some (new_booking line), stopped = False \<rparr>
        else case current st of
               None \<Rightarrow> st
             | Some c \<Rightarrow>
                 if END_MARKER_RE_search line
                 then \<lparr> bookings = bookings st @ [c], current = None, stopped = True \<rparr>
                 else let clean = strip line in
                   if length clean < 2 then st
                   else st \<lparr> current := Some (c \<lparr> Textblock := append_text (Textblock c) clean \<rparr>) \<rparr>)"

definition parse_init :: pstate where
  "parse_init = \<lparr> bookings = [], current = None, stopped = False \<rparr>"

definition parse_lines :: "string list \<Rightarrow> booking list" where
  "parse_lines lines = close_current (foldl parse_step parse_init lines)"

section \<open>The rule store\<close>

text \<open>
  A rule document is a Python dictionary from trigger keys to display names: an
  association list in insertion order. The \<open>json\<close> and \<open>difflib\<close> libraries are not part
  of the program; what it calls of them is a parameter: \<open>json_load\<close> reads a document
  (\<open>None\<close> when it raises), \<open>json_dump\<close> writes one, \<open>ratio\<close> is
  \<open>SequenceMatcher(None, a, b).ratio()\<close>. The type \<open>'d\<close> is what a file holds. The enricher
  is modelled for any such library; the section on saving and loading writes the two
  \<open>json\<close> functions out.
\<close>

type_synonym rules = "(string \<times> string) list"

record 'd env =
  json_load :: "'d \<Rightarrow> rules option"
  json_dump :: "rules \<Rightarrow> 'd"
  ratio :: "string \<Rightarrow> string \<Rightarrow> real"

datatype error = JSONDecodeError | EOFError | ValueError

type_synonym 'd fs = "string \<Rightarrow> 'd option"

fun dict_set :: "rules \<Rightarrow> string \<Rightarrow> string \<Rightarrow> rules" where
  \<comment> \<open>\<open>db[key] = value\<close>: an existing key keeps its place, a new one goes last\<close>
  "dict_set [] k v = [(k, v)]"
| "dict_set ((k', v') # db) k v =
     (if k' = k then (k, v) # db else (k', v') # dict_set db k v)"

definition load_reference_db :: "'d env \<Rightarrow> 'd fs \<Rightarrow> string \<Rightarrow> error + rules" where
  "load_reference_db e fs path =
     (case fs path of
        None \<Rightarrow> Inr []
      | Some doc \<Rightarrow> (case json_load e doc of None \<Rightarrow> Inl JSONDecodeError | Some db \<Rightarrow> Inr db))"

definition load_declarations :: "'d env \<Rightarrow> 'd fs \<Rightarrow> string \<Rightarrow> error + string list" where
  \<comment> \<open>\<open>sorted(set(db.values()))\<close>\<close>
  "load_declarations e fs path =
     (case load_reference_db e fs path of
        Inl err \<Rightarrow> Inl err
      | Inr db \<Rightarrow> Inr (sort (remdups (map snd db))))"

definition save_reference :: "'d env \<Rightarrow> 'd fs \<Rightarrow> string \<Rightarrow> string \<Rightarrow> string \<Rightarrow> error + 'd fs" where
  "save_reference e fs key val path =
     (case load_reference_db e fs path of
        Inl err \<Rightarrow> Inl err
      | Inr db \<Rightarrow> Inr (fs (path := Some (json_dump e (dict_set db key val)))))"

definition fuzzy_score :: "'d env \<Rightarrow> string \<Rightarrow> string \<Rightarrow> real" where
  "fuzzy_score e a b = ratio e (lower a) (lower b)"

definition get_fuzzy_declarations ::
  "'d env \<Rightarrow> 'd fs \<Rightarrow> string \<Rightarrow> real \<Rightarrow> nat \<Rightarrow> error + (string \<times> real) list" where
  \<comment> \<open>\<open>scored.sort(key=lambda x: x[1], reverse=True)\<close> is stable, as \<open>sort_key\<close> is\<close>
  "get_fuzzy_declarations e fs text threshold limit =
     (case load_declarations e fs ''split_rules.json'' of
        Inl err \<Rightarrow> Inl err
      | Inr names \<Rightarrow>
          Inr (take limit
                (sort_key (\<lambda>x. - snd x)
                  (filter (\<lambda>x. snd x \<ge> threshold)
                    (map (\<lambda>name. (name, fuzzy_score e text name)) names)))))"

section \<open>Rule application\<close>

definition clean_description :: "string \<Rightarrow> string" where
  "clean_description text = (if text = [] then [] else lstrip_chars '' ,.;:-/)_'' text)"

fun apply_split_rule :: "string \<Rightarrow> rules \<Rightarrow> (string \<times> string) option" where
  \<comment> \<open>\<open>None\<close> is the pair \<open>(None, None)\<close> of the source\<close>
  "apply_split_rule text [] = None"
| "apply_split_rule text ((key, val) # rules) =
     (if contains key text then Some (val, strip (drop (length key) text))
      else apply_split_rule text rules)"

section \<open>The operator's answers\<close>

text \<open>
  Standard input is the list of the lines still to be read; \<open>input()\<close> takes the first
  and raises \<open>EOFError\<close> on the empty list. What the program prints is not modelled.
\<close>

definition isdigit_char :: "char \<Rightarrow> bool" where
  \<comment> \<open>\<open>str.isdigit\<close>: the decimal digits and the superscripts 1, 2, 3\<close>
  "isdigit_char c = (let n = (of_char c :: int) in
     (48 \<le> n \<and> n \<le> 57) \<or> n = 178 \<or> n = 179 \<or> n = 185)"

definition isdigit :: "string \<Rightarrow> bool" where
  "isdigit s = (s \<noteq> [] \<and> list_all isdigit_char s)"

fun digits_ok :: "string \<Rightarrow> bool" where
  \<comment> \<open>decimal digits, single underscores between them allowed\<close>
  "digits_ok [] = False"
| "digits_ok [c] = isdecimal c"
| "digits_ok (c # d # r) =
     (isdecimal c \<and> (if d = CHR ''_'' then digits_ok r else digits_ok (d # r)))"

definition digits_value :: "string \<Rightarrow> int option" where
  \<comment> \<open>more than 4300 digits are refused (the interpreter's default limit)\<close>
  "digits_value s =
     (if digits_ok s \<and> int (length (filter isdecimal s)) \<le> 4300
      then Some (foldl (\<lambda>a c. 10 * a + (of_char c - 48)) 0 (filter (\<lambda>c. c \<noteq> CHR ''_'') s))
      else None)"

definition int_space :: "char \<Rightarrow> bool" where
  \<comment> \<open>the characters \<open>int()\<close> skips around a number: the ASCII white space, and the
      other spaces of \<open>str.isspace\<close> from 127 on. The separators 28 to 31 are not skipped.\<close>
  "int_space c = (let n = (of_char c :: int) in
     (9 \<le> n \<and> n \<le> 13) \<or> n = 32 \<or> n = 133 \<or> n = 160)"

definition int_of_str :: "string \<Rightarrow> int option" where
  \<comment> \<open>\<open>int(s)\<close>; \<open>None\<close> is \<open>ValueError\<close>\<close>
  "int_of_str s =
     (case rev (dropWhile int_space (rev (dropWhile int_space s))) of
        [] \<Rightarrow> None
      | c # cs \<Rightarrow>
          if c = CHR ''-'' then map_option uminus (digits_value cs)
          else if c = CHR ''+'' then digits_value cs
          else digits_value (c # cs))"

definition rfind :: "string \<Rightarrow> string \<Rightarrow> nat option" where
  \<comment> \<open>\<open>s.rfind(sub)\<close>; \<open>None\<close> is \<open>-1\<close>\<close>
  "rfind s sub =
     find (\<lambda>i. take (length sub) (drop i s) = sub) (rev [0 ..< Suc (length s - length sub)])"

definition pick :: "string \<Rightarrow> 'a list \<Rightarrow> error + 'a option" where
  \<comment> \<open>\<open>if choice.isdigit(): idx = int(choice) - 1; if 0 <= idx < len(xs): return xs[idx]\<close>\<close>
  "pick choice xs =
     (if isdigit choice
      then (case int_of_str choice of
              None \<Rightarrow> Inl ValueError
            | Some n \<Rightarrow> if 0 \<le> n - 1 \<and> n - 1 < int (length xs)
                        then Inr (Some (xs ! nat (n - 1))) else Inr None)
      else Inr None)"

datatype loop_exit = Break | Return "string option"

fun shortlist_loop ::
  "'d env \<Rightarrow> 'd fs \<Rightarrow> string \<Rightarrow> string list \<Rightarrow> error + (loop_exit \<times> string list)" where
  \<comment> \<open>the \<open>while True\<close> of \<open>ask_user_select_declaration\<close>\<close>
  "shortlist_loop e fs text ins =
     (case get_fuzzy_declarations e fs text (2 / 5) 5 of
        Inl err \<Rightarrow> Inl err
      | Inr fuzzy \<Rightarrow>
          if fuzzy = [] then Inr (Break, ins)
          else (case ins of
                  [] \<Rightarrow> Inl EOFError
                | l # rest \<Rightarrow>
                    (let choice = lower (strip l) in
                     case pick choice fuzzy of
                       Inl err \<Rightarrow> Inl err
                     | Inr (Some x) \<Rightarrow> Inr (Return (Some (fst x)), rest)
                     | Inr None \<Rightarrow>
                         if choice = ''a'' then Inr (Break, rest)
                         else if choice = ''n'' then Inr (Return None, rest)
                         else shortlist_loop e fs text rest)))"

definition ask_user_select_declaration ::
  "'d env \<Rightarrow> 'd fs \<Rightarrow> string \<Rightarrow> string list \<Rightarrow> error + (string option \<times> string list)" where
  "ask_user_select_declaration e fs text ins =
     (case shortlist_loop e fs text ins of
        Inl err \<Rightarrow> Inl err
      | Inr (Return r, ins') \<Rightarrow> Inr (r, ins')
      | Inr (Break, ins') \<Rightarrow>
          (case load_declarations e fs ''split_rules.json'' of
             Inl err \<Rightarrow> Inl err
           | Inr names \<Rightarrow>
               if names = [] then Inr (None, ins')
               else (case ins' of
                       [] \<Rightarrow> Inl EOFError
                     | l # rest \<Rightarrow>
                         (case pick (lower (strip l)) names of
                            Inl err \<Rightarrow> Inl err
                          | Inr (Some name) \<Rightarrow> Inr (Some name, rest)
                          | Inr None \<Rightarrow> Inr (None, rest)))))"

fun marker_loop :: "string \<Rightarrow> string list \<Rightarrow> error + (nat option \<times> string list)" where
  \<comment> \<open>the first \<open>while True\<close> of \<open>ask_user_for_split\<close>: the split index, \<open>None\<close> on an empty answer\<close>
  "marker_loop text [] = Inl EOFError"
| "marker_loop text (l # rest) =
     (let marker = strip l in
      if marker = [] then Inr (None, rest)
      else (case rfind (lower text) (lower marker) of
              None \<Rightarrow> marker_loop text rest
            | Some idx \<Rightarrow> Inr (Some (idx + length marker), rest)))"

fun shift_loop :: "string \<Rightarrow> nat \<Rightarrow> string list \<Rightarrow> error + (nat \<times> string list)" where
  \<comment> \<open>the second \<open>while True\<close>: \<open>split_idx = max(0, min(len(text), split_idx + shift))\<close>\<close>
  "shift_loop text split_idx [] = Inl EOFError"
| "shift_loop text split_idx (l # rest) =
     (case int_of_str l of
        None \<Rightarrow> Inr (split_idx, rest)
      | Some shift \<Rightarrow>
          if shift = 0 then Inr (split_idx, rest)
          else shift_loop text (nat (max 0 (min (int (length text)) (int split_idx + shift)))) rest)"

definition truthy :: "string \<Rightarrow> bool" where
  "truthy s = (s \<noteq> [])"

definition ask_name ::
  "string \<Rightarrow> string \<Rightarrow> string list
     \<Rightarrow> error + ((string \<times> string \<times> string) option \<times> string list)" where
  \<comment> \<open>the end of \<open>ask_user_for_split\<close>: \<open>name = input(...).strip()\<close>, the key when left empty\<close>
  "ask_name rest key ins =
     (case ins of
        [] \<Rightarrow> Inl EOFError
      | l # ins' \<Rightarrow>
          (let name = strip l in
           if name = [] then Inr (Some (key, rest, key), ins')
           else Inr (Some (name, rest, key), ins')))"

definition ask_user_for_split ::
  "'d env \<Rightarrow> 'd fs \<Rightarrow> booking \<Rightarrow> string list
     \<Rightarrow> error + ((string \<times> string \<times> string) option \<times> string list)" where
  \<comment> \<open>\<open>Some (name, rest, key)\<close>, or \<open>None\<close> for \<open>(None, None, None)\<close>\<close>
  "ask_user_for_split e fs b ins =
     (let text = strip (Textblock b) in
      case marker_loop text ins of
        Inl err \<Rightarrow> Inl err
      | Inr (None, ins1) \<Rightarrow> Inr (None, ins1)
      | Inr (Some start, ins1) \<Rightarrow>
          (case shift_loop text start ins1 of
             Inl err \<Rightarrow> Inl err
           | Inr (split_idx, ins2) \<Rightarrow>
               (let rest = strip (drop split_idx text);
                    key = strip (take split_idx text)
                in case ask_user_select_declaration e fs key ins2 of
                     Inl err \<Rightarrow> Inl err
                   | Inr (selected, ins3) \<Rightarrow>
                       (case selected of
                          Some sel \<Rightarrow>
                            if truthy sel then Inr (Some (sel, rest, key), ins3)
                            else ask_name rest key ins3
                        | None \<Rightarrow> ask_name rest key ins3))))"

section \<open>The enricher\<close>

record 'd world =
  files :: "'d fs"
  stdin :: "string list"

definition enrich_unmatched ::
  "'d env \<Rightarrow> bool \<Rightarrow> booking \<Rightarrow> string \<Rightarrow> 'd world \<Rightarrow> error + (booking \<times> 'd world)" where
  \<comment> \<open>the loop body of \<open>enrich_bookings\<close> after \<open>if label: ... continue\<close>\<close>
  "enrich_unmatched e interactive b text w =
     (if interactive
      then (case ask_user_for_split e (files w) b (stdin w) of
              Inl err \<Rightarrow> Inl err
            | Inr (Some (name, rest, key), ins) \<Rightarrow>
                if truthy name
                then (case save_reference e (files w) key name ''split_rules.json'' of
                        Inl err \<Rightarrow> Inl err
                      | Inr fs' \<Rightarrow>
                          Inr (b \<lparr> Name := Some key,
                                  Beschreibung := Some (clean_description rest) \<rparr>,
                               \<lparr> files = fs', stdin = ins \<rparr>))
                else Inr (b \<lparr> Name := Some text, Beschreibung := Some [] \<rparr>,
                          w \<lparr> stdin := ins \<rparr>)
            | Inr (None, ins) \<Rightarrow>
                Inr (b \<lparr> Name := Some text, Beschreibung := Some [] \<rparr>,
                     w \<lparr> stdin := ins \<rparr>))
      else Inr (b, w))"

definition enrich_booking ::
  "'d env \<Rightarrow> bool \<Rightarrow> booking \<Rightarrow> 'd world \<Rightarrow> error + (booking \<times> 'd world)" where
  \<comment> \<open>the loop body of \<open>enrich_bookings\<close>\<close>
  "enrich_booking e interactive b w =
     (case load_reference_db e (files w) ''split_rules.json'' of
        Inl err \<Rightarrow> Inl err
      | Inr rules \<Rightarrow>
          (let text = strip (Textblock b) in
           case apply_split_rule text rules of
             Some (label, rest) \<Rightarrow>
               if truthy label
               then Inr (b \<lparr> Name := Some label,
                            Beschreibung := Some (clean_description rest) \<rparr>, w)
               else enrich_unmatched e interactive b text w
           | None \<Rightarrow> enrich_unmatched e interactive b text w))"

fun enrich_bookings ::
  "'d env \<Rightarrow> bool \<Rightarrow> booking list \<Rightarrow> 'd world \<Rightarrow> error + (booking list \<times> 'd world)" where
  "enrich_bookings e interactive [] w = Inr ([], w)"
| "enrich_bookings e interactive (b # bs) w =
     (case enrich_booking e interactive b w of
        Inl err \<Rightarrow> Inl err
      | Inr (b', w') \<Rightarrow>
          (case enrich_bookings e interactive bs w' of
             Inl err \<Rightarrow> Inl err
           | Inr (bs', w'') \<Rightarrow> Inr (b' # bs', w'')))"

section \<open>Concrete inputs\<close>

text \<open>
  For evaluation the libraries are instantiated at their simplest: a file holds the
  dictionary itself, and the similarity of two strings is 1 when they are equal, 1/2
  when they only begin with the same character, and 0 otherwise.
\<close>

definition plain_env :: "rules env" where
  "plain_env = \<lparr> json_load = Some, json_dump = (\<lambda>db. db),
                 ratio = (\<lambda>a b. if a = b then 1
                                else if a \<noteq> [] \<and> b \<noteq> [] \<and> hd a = hd b then 1 / 2 else 0) \<rparr>"

definition paypal :: booking where
  "paypal = \<lparr> Datum = ''01.01.2024'', Buchungsart = ''Lastschrift'',
              Textblock = ''PAYPAL EUROPE 123 Einkauf'', Soll = ''-12.00'', Haben = [],
              Name = None, Beschreibung = None, Quelle = None \<rparr>"

definition known_rules :: rules where
  "known_rules =
     [(''PAYPAL EUROPE'', ''PayPal''), (''AMAZON EU'', ''Amazon''), (''REWE'', ''Rewe''),
      (''PENNY'', ''Penny''), (''PARKHAUS'', ''Parken''), (''POST'', ''Post''),
      (''PRIMARK'', ''Primark''), (''PIZZERIA'', ''Pizza''), (''PAY PAL'', ''PayPal'')]"

section \<open>Facts used by several sections\<close>

lemma enrich_unmatched_False: "enrich_unmatched e False b text w = Inr (b, w)"
  by (simp add: enrich_unmatched_def)

definition pstate_ok :: "pstate \<Rightarrow> bool" where
  \<comment> \<open>after the \<open>break\<close> no booking is open\<close>
  "pstate_ok st = (stopped st \<longrightarrow> current st = None)"

lemma parse_step_stopped: "stopped st \<Longrightarrow> parse_step st l = st"
  by (simp add: parse_step_def)

lemma foldl_parse_step_stopped: "stopped st \<Longrightarrow> foldl parse_step st ls = st"
  by (induction ls) (simp_all add: parse_step_stopped)

lemma parse_step_ok: "pstate_ok st \<Longrightarrow> pstate_ok (parse_step st l)"
  by (auto simp: pstate_ok_def parse_step_def Let_def split: option.splits)

lemma foldl_parse_step_ok: "pstate_ok st \<Longrightarrow> pstate_ok (foldl parse_step st ls)"
  by (induction ls arbitrary: st) (simp_all add: parse_step_ok)

lemma parse_init_ok: "pstate_ok parse_init"
  by (simp add: pstate_ok_def parse_init_def)

section \<open>Rule application (C1)\<close>

text \<open>
  C1. Rule application takes the first key, in the order of the document, that occurs
  in the text; the name is the mapped value and the description is the text after the
  occurrence of the key. The test is \<open>key in text\<close>, but the description is
  \<open>text[len(key):]\<close>: when the key occurs later than at the start of the text, what is
  returned is the text without its first \<open>len(key)\<close> characters. With the rule
  \<open>AMAZON \<mapsto> Amazon\<close>, the text \<open>XX AMAZON EU SARL\<close> gives the description
  \<open>ZON EU SARL\<close>, where the text after the key is \<open>EU SARL\<close>; the text
  \<open>AMAZON EU SARL\<close> gives \<open>EU SARL\<close>.
\<close>

theorem apply_split_rule_drops_prefix_length:
  "apply_split_rule ''XX AMAZON EU SARL'' [(''AMAZON'', ''Amazon'')]
     = Some (''Amazon'', ''ZON EU SARL'')
   \<and> apply_split_rule ''AMAZON EU SARL'' [(''AMAZON'', ''Amazon'')]
     = Some (''Amazon'', ''EU SARL'')
   \<and> (case enrich_bookings plain_env True [paypal \<lparr> Textblock := ''XX AMAZON EU SARL'' \<rparr>]
             \<lparr> files = [''split_rules.json'' \<mapsto> [(''AMAZON'', ''Amazon'')]], stdin = [] \<rparr> of
         Inl err \<Rightarrow> False
       | Inr (bs, w) \<Rightarrow>
           map Name bs = [Some ''Amazon''] \<and> map Beschreibung bs = [Some ''ZON EU SARL''])"
  by code_simp

section \<open>The text of a booking (C2)\<close>

text \<open>
  A continuation line is one that neither starts a booking nor ends the statement. Of
  the continuation lines after a header, those of at least two characters once trimmed
  are accepted; \<open>join_space\<close> is \<open>" ".join\<close>.
\<close>

definition continuation :: "string \<Rightarrow> bool" where
  "continuation l = (\<not> DATE_RE_match (rstrip l) \<and> \<not> END_MARKER_RE_search (rstrip l))"

definition accepted :: "string list \<Rightarrow> string list" where
  "accepted cs = filter (\<lambda>c. 2 \<le> length c) (map (\<lambda>l. strip (rstrip l)) cs)"

fun join_space :: "string list \<Rightarrow> string" where
  "join_space [] = []"
| "join_space [x] = x"
| "join_space (x # y # r) = x @ '' '' @ join_space (y # r)"

definition header_with :: "string \<Rightarrow> string list \<Rightarrow> booking" where
  "header_with h cs = (new_booking (rstrip h)) \<lparr> Textblock := join_space (accepted cs) \<rparr>"

definition open_at :: "string list \<Rightarrow> booking \<Rightarrow> bool" where
  "open_at seen c = (\<exists>pre h cs. seen = pre @ h # cs \<and> DATE_RE_match (rstrip h)
     \<and> list_all continuation cs \<and> c = header_with h cs)"

definition closed_at :: "string list \<Rightarrow> booking \<Rightarrow> bool" where
  "closed_at seen b = (\<exists>pre h cs rest. seen = pre @ h # cs @ rest \<and> rest \<noteq> []
     \<and> \<not> continuation (hd rest) \<and> DATE_RE_match (rstrip h)
     \<and> list_all continuation cs \<and> b = header_with h cs)"

definition parsed_to :: "string list \<Rightarrow> pstate \<Rightarrow> bool" where
  "parsed_to seen st = (list_all (closed_at seen) (bookings st)
     \<and> (case current st of Some c \<Rightarrow> open_at seen c | None \<Rightarrow> True)
     \<and> pstate_ok st)"

lemma join_space_empty: "\<forall>x \<in> set xs. x \<noteq> [] \<Longrightarrow> (join_space xs = []) = (xs = [])"
  by (induction xs rule: join_space.induct) auto

lemma join_space_snoc:
  "\<forall>x \<in> set xs. x \<noteq> [] \<Longrightarrow> join_space (xs @ [c]) = append_text (join_space xs) c"
proof (induction xs rule: join_space.induct)
  case 1
  then show ?case by (simp add: append_text_def)
next
  case (2 x)
  then show ?case by (simp add: append_text_def)
next
  case (3 x y r)
  then have "join_space ((y # r) @ [c]) = append_text (join_space (y # r)) c" by simp
  moreover have "join_space (y # r) \<noteq> []" using 3(2) join_space_empty [of "y # r"] by simp
  ultimately show ?case by (simp add: append_text_def)
qed

lemma accepted_nonempty: "\<forall>x \<in> set (accepted cs). x \<noteq> []"
  by (auto simp: accepted_def)

lemma accepted_snoc:
  "accepted (cs @ [l]) = (if length (strip (rstrip l)) < 2 then accepted cs
                          else accepted cs @ [strip (rstrip l)])"
  by (simp add: accepted_def)

lemma Textblock_new_booking: "Textblock (new_booking line) = []"
  by (simp add: new_booking_def Let_def)

lemma header_with_Nil: "header_with h [] = new_booking (rstrip h)"
  by (simp add: header_with_def accepted_def new_booking_def Let_def)

lemma closed_at_extend: "closed_at seen b \<Longrightarrow> closed_at (seen @ ls) b"
proof -
  assume "closed_at seen b"
  then obtain pre h cs rest where
    *: "seen = pre @ h # cs @ rest" "rest \<noteq> []" "\<not> continuation (hd rest)"
       "DATE_RE_match (rstrip h)" "list_all continuation cs" "b = header_with h cs"
    unfolding closed_at_def by blast
  from * have "seen @ ls = pre @ h # cs @ (rest @ ls)" "rest @ ls \<noteq> []"
    "\<not> continuation (hd (rest @ ls))" by simp_all
  with * show ?thesis unfolding closed_at_def by blast
qed

lemma open_to_closed:
  assumes "open_at seen c" and "\<not> continuation l"
  shows "closed_at (seen @ [l]) c"
proof -
  from assms(1) obtain pre h cs where
    *: "seen = pre @ h # cs" "DATE_RE_match (rstrip h)" "list_all continuation cs"
       "c = header_with h cs"
    unfolding open_at_def by blast
  from * assms(2) have "seen @ [l] = pre @ h # cs @ [l]" "[l] \<noteq> []" "\<not> continuation (hd [l])"
    by simp_all
  with * show ?thesis unfolding closed_at_def by blast
qed

lemma open_new: "DATE_RE_match (rstrip l) \<Longrightarrow> open_at (seen @ [l]) (new_booking (rstrip l))"
  unfolding open_at_def
  by (intro exI [of _ seen] exI [of _ l] exI [of _ "[]"]) (simp add: header_with_Nil)

lemma open_step:
  assumes "open_at seen c" and "continuation l"
  shows "open_at (seen @ [l])
           (if length (strip (rstrip l)) < 2 then c
            else c \<lparr> Textblock := append_text (Textblock c) (strip (rstrip l)) \<rparr>)"
proof -
  from assms(1) obtain pre h cs where
    *: "seen = pre @ h # cs" "DATE_RE_match (rstrip h)" "list_all continuation cs"
       "c = header_with h cs"
    unfolding open_at_def by blast
  have tb: "Textblock c = join_space (accepted cs)" using * by (simp add: header_with_def)
  have "header_with h (cs @ [l]) =
          (if length (strip (rstrip l)) < 2 then c
           else c \<lparr> Textblock := append_text (Textblock c) (strip (rstrip l)) \<rparr>)"
    using *(4) tb accepted_nonempty [of cs]
    by (simp add: header_with_def accepted_snoc join_space_snoc)
  moreover have "seen @ [l] = pre @ h # (cs @ [l])" "list_all continuation (cs @ [l])"
    using * assms(2) by simp_all
  ultimately show ?thesis using *(2) unfolding open_at_def by metis
qed

lemma parse_step_parsed_to:
  assumes "parsed_to seen st"
  shows "parsed_to (seen @ [l]) (parse_step st l)"
proof (cases "stopped st")
  case True
  with assms show ?thesis
    by (auto simp: parsed_to_def parse_step_stopped pstate_ok_def list_all_iff
        intro: closed_at_extend)
next
  case False
  from assms have old: "list_all (closed_at (seen @ [l])) (bookings st)"
    by (auto simp: parsed_to_def list_all_iff intro: closed_at_extend)
  from assms have ok: "pstate_ok (parse_step st l)"
    by (simp add: parsed_to_def parse_step_ok)
  show ?thesis
  proof (cases "DATE_RE_match (rstrip l)")
    case True
    then have nc: "\<not> continuation l" by (simp add: continuation_def)
    have "list_all (closed_at (seen @ [l])) (close_current st)"
      using old assms nc
      by (auto simp: close_current_def parsed_to_def split: option.splits
          intro: open_to_closed)
    with True False ok show ?thesis
      using open_new [OF True, of seen]
      by (simp add: parsed_to_def parse_step_def)
  next
    case nodate: False
    show ?thesis
    proof (cases "current st")
      case None
      with nodate False old ok show ?thesis
        by (simp add: parsed_to_def parse_step_def)
    next
      case (Some c)
      with assms have oc: "open_at seen c" by (simp add: parsed_to_def)
      show ?thesis
      proof (cases "END_MARKER_RE_search (rstrip l)")
        case True
        then have "\<not> continuation l" by (simp add: continuation_def)
        from open_to_closed [OF oc this] old ok True nodate False Some show ?thesis
          by (simp add: parsed_to_def parse_step_def)
      next
        case noend: False
        with nodate have "continuation l" by (simp add: continuation_def)
        from open_step [OF oc this] old ok noend nodate False Some show ?thesis
          by (cases "length (strip (rstrip l)) < 2")
             (simp_all add: parsed_to_def parse_step_def Let_def)
      qed
    qed
  qed
qed

lemma foldl_parsed_to:
  "parsed_to seen st \<Longrightarrow> parsed_to (seen @ ls) (foldl parse_step st ls)"
proof (induction ls arbitrary: seen st)
  case Nil
  then show ?case by simp
next
  case (Cons l ls)
  from Cons.IH [OF parse_step_parsed_to [OF Cons.prems, of l]] show ?case by simp
qed

text \<open>
  C2, as stated: the text of a booking is what follows the date on its header line,
  together with the accepted continuation lines, joined with single spaces. The header
  line gives nothing to \<open>Textblock\<close>: it starts empty, and what follows the date goes,
  cut to 20 characters, to \<open>Buchungsart\<close>.
\<close>

theorem textblock_counterexample:
  "map Textblock (parse_lines [''01.01.2024 Lastschrift -10,00'', ''REWE SAGT DANKE''])
     = [''REWE SAGT DANKE'']
   \<and> map Textblock (parse_lines [''01.01.2024 Lastschrift -10,00'', ''REWE SAGT DANKE''])
     \<noteq> [''Lastschrift -10,00 REWE SAGT DANKE'']
   \<and> map Buchungsart (parse_lines [''01.01.2024 Lastschrift -10,00'', ''REWE SAGT DANKE''])
     = [''Lastschrift -10,00'']"
  by code_simp

text \<open>
  C2, amended: every booking the parser returns comes from a header line \<open>h\<close> of the
  input, followed by continuation lines \<open>cs\<close> up to the end of the input, the next
  header or an end marker; its fields are those read from \<open>h\<close>, and its text is the
  accepted lines among \<open>cs\<close>, trimmed and joined with single spaces. The header line is
  no part of the text.
\<close>

theorem textblock_is_continuation_lines:
  "\<forall>b \<in> set (parse_lines lines).
     \<exists>pre h cs rest.
       lines = pre @ h # cs @ rest
       \<and> DATE_RE_match (rstrip h)
       \<and> list_all continuation cs
       \<and> (case rest of [] \<Rightarrow> True | l # ls \<Rightarrow> \<not> continuation l)
       \<and> b = (new_booking (rstrip h)) \<lparr> Textblock := join_space (accepted cs) \<rparr>"
proof
  fix b assume b: "b \<in> set (parse_lines lines)"
  let ?st = "foldl parse_step parse_init lines"
  have "parsed_to [] parse_init" by (simp add: parsed_to_def parse_init_def pstate_ok_def)
  from foldl_parsed_to [OF this, of lines] have inv: "parsed_to lines ?st" by simp
  from b have "b \<in> set (bookings ?st) \<or> current ?st = Some b"
    by (auto simp: parse_lines_def close_current_def split: option.splits)
  then show "\<exists>pre h cs rest.
       lines = pre @ h # cs @ rest
       \<and> DATE_RE_match (rstrip h)
       \<and> list_all continuation cs
       \<and> (case rest of [] \<Rightarrow> True | l # ls \<Rightarrow> \<not> continuation l)
       \<and> b = (new_booking (rstrip h)) \<lparr> Textblock := join_space (accepted cs) \<rparr>"
  proof
    assume "b \<in> set (bookings ?st)"
    with inv have "closed_at lines b" by (simp add: parsed_to_def list_all_iff)
    then obtain pre h cs rest where
      *: "lines = pre @ h # cs @ rest" "rest \<noteq> []" "\<not> continuation (hd rest)"
         "DATE_RE_match (rstrip h)" "list_all continuation cs" "b = header_with h cs"
      unfolding closed_at_def by blast
    from *(2,3) have "case rest of [] \<Rightarrow> True | l # ls \<Rightarrow> \<not> continuation l"
      by (cases rest) simp_all
    with * show ?thesis unfolding header_with_def by blast
  next
    assume "current ?st = Some b"
    with inv have "open_at lines b" by (simp add: parsed_to_def)
    then obtain pre h cs where
      *: "lines = pre @ h # cs" "DATE_RE_match (rstrip h)" "list_all continuation cs"
         "b = header_with h cs"
      unfolding open_at_def by blast
    from * have "lines = pre @ h # cs @ []"
      "case ([] :: string list) of [] \<Rightarrow> True | l # ls \<Rightarrow> \<not> continuation l" by simp_all
    with * show ?thesis unfolding header_with_def by blast
  qed
qed

theorem textblock_is_continuation_lines_witness:
  "parse_lines [''01.01.2024 Lastschrift -10,00'', ''  REWE SAGT DANKE  '', '' x '', ''Karte 1234'',
                ''02.01.2024 Gutschrift 1.000,00'', ''Lohn'']
     = [\<lparr> Datum = ''01.01.2024'', Buchungsart = ''Lastschrift -10,00'',
          Textblock = ''REWE SAGT DANKE Karte 1234'', Soll = ''-10.00'', Haben = [],
          Name = None, Beschreibung = None, Quelle = None \<rparr>,
        \<lparr> Datum = ''02.01.2024'', Buchungsart = ''Gutschrift 1.000,00'',
          Textblock = ''Lohn'', Soll = [], Haben = ''1000.00'',
          Name = None, Beschreibung = None, Quelle = None \<rparr>]
   \<and> (\<exists>pre h cs rest.
         [''01.01.2024 Lastschrift -10,00'', ''  REWE SAGT DANKE  '', '' x '', ''Karte 1234'',
          ''02.01.2024 Gutschrift 1.000,00'', ''Lohn''] = pre @ h # cs @ rest
         \<and> DATE_RE_match (rstrip h)
         \<and> list_all continuation cs
         \<and> (case rest of [] \<Rightarrow> True | l # ls \<Rightarrow> \<not> continuation l)
         \<and> \<lparr> Datum = ''01.01.2024'', Buchungsart = ''Lastschrift -10,00'',
             Textblock = ''REWE SAGT DANKE Karte 1234'', Soll = ''-10.00'', Haben = [],
             Name = None, Beschreibung = None, Quelle = None \<rparr>
           = (new_booking (rstrip h)) \<lparr> Textblock := join_space (accepted cs) \<rparr>)"
proof -
  have run:
    "parse_lines [''01.01.2024 Lastschrift -10,00'', ''  REWE SAGT DANKE  '', '' x '', ''Karte 1234'',
                  ''02.01.2024 Gutschrift 1.000,00'', ''Lohn'']
       = [\<lparr> Datum = ''01.01.2024'', Buchungsart = ''Lastschrift -10,00'',
            Textblock = ''REWE SAGT DANKE Karte 1234'', Soll = ''-10.00'', Haben = [],
            Name = None, Beschreibung = None, Quelle = None \<rparr>,
          \<lparr> Datum = ''02.01.2024'', Buchungsart = ''Gutschrift 1.000,00'',
            Textblock = ''Lohn'', Soll = [], Haben = ''1000.00'',
            Name = None, Beschreibung = None, Quelle = None \<rparr>]"
    by code_simp
  have mem:
    "\<lparr> Datum = ''01.01.2024'', Buchungsart = ''Lastschrift -10,00'',
       Textblock = ''REWE SAGT DANKE Karte 1234'', Soll = ''-10.00'', Haben = [],
       Name = None, Beschreibung = None, Quelle = None \<rparr>
     \<in> set (parse_lines
          [''01.01.2024 Lastschrift -10,00'', ''  REWE SAGT DANKE  '', '' x '', ''Karte 1234'',
           ''02.01.2024 Gutschrift 1.000,00'', ''Lohn''])"
    unfolding run by (rule list.set_intros(1))
  from run bspec [OF textblock_is_continuation_lines mem] show ?thesis
    by (rule conjI)
qed

section \<open>The name after an interactive split (C3)\<close>

text \<open>
  C3. When the operator names a booking that no rule matches, the booking's name is to
  be the chosen display name, and the rule from the key to that name is saved. The rule
  is saved, but \<open>enrich_bookings\<close> stores the key in \<open>Name\<close>. Two bookings with the
  same text, no rule document, and the answers \<open>europe\<close>, \<open>0\<close>, \<open>PayPal\<close>: the
  first booking, split by the operator, is named \<open>PAYPAL EUROPE\<close>; the second, matched
  by the rule just saved, is named \<open>PayPal\<close>.
\<close>

theorem enrich_interactive_name_is_key:
  "(case enrich_bookings plain_env True [paypal, paypal]
           \<lparr> files = Map.empty, stdin = [''europe'', ''0'', ''PayPal''] \<rparr> of
      Inl err \<Rightarrow> False
    | Inr (bs, w) \<Rightarrow>
        map Name bs = [Some ''PAYPAL EUROPE'', Some ''PayPal'']
        \<and> map Beschreibung bs = [Some ''123 Einkauf'', Some ''123 Einkauf'']
        \<and> files w ''split_rules.json'' = Some [(''PAYPAL EUROPE'', ''PayPal'')]
        \<and> stdin w = [])"
  by code_simp

section \<open>Amounts (C4)\<close>

text \<open>
  C4. The last amount on a header line is the booking's amount, a debit when it has a
  minus sign; it is normalised by removing the thousands separators and turning the
  decimal comma into a point; the sign is to be kept apart from the stored magnitude.
  \<open>normalize_amount\<close> leaves the minus sign in place: the line
  \<open>01.01.2024 Lastschrift -12,00\<close> stores \<open>-12.00\<close> in \<open>Soll\<close>, and
  \<open>format_amount\<close>, which writes a minus sign in front of \<open>Soll\<close>, shows
  \<open>--12.00 EUR\<close>.
\<close>

theorem normalize_amount_keeps_sign:
  "parse_lines [''01.01.2024 Lastschrift -12,00''] =
     [\<lparr> Datum = ''01.01.2024'', Buchungsart = ''Lastschrift -12,00'', Textblock = [],
        Soll = ''-12.00'', Haben = [], Name = None, Beschreibung = None, Quelle = None \<rparr>]
   \<and> map format_amount (parse_lines [''01.01.2024 Lastschrift -12,00'']) = [''--12.00 EUR'']
   \<and> normalize_amount ''1.234,56'' = ''1234.56''
   \<and> normalize_amount ''-12,00'' = ''-12.00''"
  by code_simp

section \<open>The two amount fields (C5)\<close>

definition amounts_exclusive :: "booking \<Rightarrow> bool" where
  "amounts_exclusive b = (Soll b = [] \<or> Haben b = [])"

definition pstate_exclusive :: "pstate \<Rightarrow> bool" where
  "pstate_exclusive st =
     (list_all amounts_exclusive (bookings st)
      \<and> (case current st of Some c \<Rightarrow> amounts_exclusive c | None \<Rightarrow> True))"

lemma new_booking_exclusive: "amounts_exclusive (new_booking line)"
  by (simp add: new_booking_def amounts_exclusive_def Let_def)

lemma exclusive_Textblock [simp]:
  "amounts_exclusive (b \<lparr> Textblock := t \<rparr>) = amounts_exclusive b"
  by (simp add: amounts_exclusive_def)

lemma parse_step_exclusive: "pstate_exclusive st \<Longrightarrow> pstate_exclusive (parse_step st raw)"
  by (auto simp: pstate_exclusive_def parse_step_def close_current_def Let_def
      new_booking_exclusive split: option.splits)

lemma foldl_parse_step_exclusive:
  "pstate_exclusive st \<Longrightarrow> pstate_exclusive (foldl parse_step st lines)"
  by (induction lines arbitrary: st) (simp_all add: parse_step_exclusive)

lemma parse_lines_exclusive: "list_all amounts_exclusive (parse_lines lines)"
proof -
  have "pstate_exclusive parse_init" by (simp add: pstate_exclusive_def parse_init_def)
  then have "pstate_exclusive (foldl parse_step parse_init lines)"
    by (rule foldl_parse_step_exclusive)
  then show ?thesis
    by (auto simp: parse_lines_def close_current_def pstate_exclusive_def split: option.splits)
qed

lemma enrich_unmatched_amounts:
  "enrich_unmatched e interactive b text w = Inr (b', w')
     \<Longrightarrow> Soll b' = Soll b \<and> Haben b' = Haben b"
  by (auto simp: enrich_unmatched_def split: if_splits sum.splits option.splits prod.splits)

lemma enrich_booking_amounts:
  "enrich_booking e interactive b w = Inr (b', w') \<Longrightarrow> Soll b' = Soll b \<and> Haben b' = Haben b"
  by (auto simp: enrich_booking_def Let_def dest: enrich_unmatched_amounts
      split: if_splits sum.splits option.splits prod.splits)

lemma enrich_bookings_amounts:
  "enrich_bookings e interactive bs w = Inr (bs', w')
     \<Longrightarrow> map Soll bs' = map Soll bs \<and> map Haben bs' = map Haben bs"
proof (induction bs arbitrary: bs' w)
  case Nil
  then show ?case by simp
next
  case (Cons b bs)
  from Cons.prems obtain b1 w1 bs1 where
    1: "enrich_booking e interactive b w = Inr (b1, w1)" and
    2: "enrich_bookings e interactive bs w1 = Inr (bs1, w')" and
    3: "bs' = b1 # bs1"
    by (auto split: sum.splits prod.splits)
  from enrich_booking_amounts [OF 1] Cons.IH [OF 2] 3 show ?case by simp
qed

lemma exclusive_by_amounts:
  assumes "map Soll bs' = map Soll bs" and "map Haben bs' = map Haben bs"
    and "list_all amounts_exclusive bs"
  shows "list_all amounts_exclusive bs'"
proof -
  have len: "length bs' = length bs" using assms(1) by (metis length_map)
  have "amounts_exclusive (bs' ! i)" if "i < length bs'" for i
  proof -
    from that len have i: "i < length bs" by simp
    have "Soll (bs' ! i) = Soll (bs ! i)" using assms(1) that i by (metis nth_map)
    moreover have "Haben (bs' ! i) = Haben (bs ! i)" using assms(2) that i by (metis nth_map)
    moreover have "amounts_exclusive (bs ! i)" using assms(3) i by (simp add: list_all_length)
    ultimately show ?thesis by (simp add: amounts_exclusive_def)
  qed
  then show ?thesis by (simp add: list_all_length)
qed

text \<open>
  C5. In every booking the parser produces, at most one of \<open>Soll\<close> and \<open>Haben\<close> is
  non-empty, and what follows keeps it so: the enricher, whatever the operator answers,
  returns bookings with at most one of the two non-empty when it was given such, and
  so does the assignment of \<open>Quelle\<close>.
\<close>

theorem amounts_never_both:
  "list_all amounts_exclusive (parse_lines lines)
   \<and> (list_all amounts_exclusive bs \<and> enrich_bookings e interactive bs w = Inr (bs', w')
        \<longrightarrow> list_all amounts_exclusive bs')
   \<and> (amounts_exclusive b \<longrightarrow> amounts_exclusive (b \<lparr> Quelle := q \<rparr>))"
proof (intro conjI impI)
  show "list_all amounts_exclusive (parse_lines lines)" by (rule parse_lines_exclusive)
next
  assume a: "list_all amounts_exclusive bs \<and> enrich_bookings e interactive bs w = Inr (bs', w')"
  then have "map Soll bs' = map Soll bs" "map Haben bs' = map Haben bs"
    using enrich_bookings_amounts by blast+
  with a show "list_all amounts_exclusive bs'" by (blast intro: exclusive_by_amounts)
next
  assume "amounts_exclusive b"
  then show "amounts_exclusive (b \<lparr> Quelle := q \<rparr>)" by (simp add: amounts_exclusive_def)
qed

theorem amounts_never_both_witness:
  "list_all amounts_exclusive
     (parse_lines [''01.01.2024 Lastschrift 1.000,00 -12,00'', ''PAYPAL EUROPE 123 Einkauf''])
   \<and> (case enrich_bookings plain_env True [paypal]
             \<lparr> files = Map.empty, stdin = [''europe'', ''0'', ''PayPal''] \<rparr> of
         Inl err \<Rightarrow> False
       | Inr (bs', w') \<Rightarrow> list_all amounts_exclusive bs')
   \<and> amounts_exclusive (paypal \<lparr> Quelle := Some ''a.pdf'' \<rparr>)"
proof -
  have "case enrich_bookings plain_env True [paypal]
               \<lparr> files = Map.empty, stdin = [''europe'', ''0'', ''PayPal''] \<rparr> of
          Inl err \<Rightarrow> False | Inr r \<Rightarrow> True"
    by code_simp
  then obtain bs' w' where run:
    "enrich_bookings plain_env True [paypal]
       \<lparr> files = Map.empty, stdin = [''europe'', ''0'', ''PayPal''] \<rparr> = Inr (bs', w')"
    by (auto split: sum.splits)
  have p: "amounts_exclusive paypal" by code_simp
  then have ps: "list_all amounts_exclusive [paypal]" by simp
  note inst = amounts_never_both
    [of "[''01.01.2024 Lastschrift 1.000,00 -12,00'', ''PAYPAL EUROPE 123 Einkauf'']"
        "[paypal]" plain_env True
        "\<lparr> files = Map.empty, stdin = [''europe'', ''0'', ''PayPal''] \<rparr>" bs' w'
        paypal "Some ''a.pdf''"]
  from inst ps run p show ?thesis by simp
qed

section \<open>The end of the statement (C6)\<close>

text \<open>
  C6, as stated: once a line with an end marker is seen while a booking is open, the
  booking is closed and no later line adds to a booking or starts one. A line that
  starts with a date is a header whatever else it holds: after \<open>01.01.2024 ...\<close> and a
  continuation line, the line \<open>02.01.2024 Kontostand am 02.01.2024\<close> has the marker and
  starts the second booking, and the line after it is that booking's text.
\<close>

theorem end_marker_counterexample:
  "END_MARKER_RE_search (rstrip ''02.01.2024 Kontostand am 02.01.2024'')
   \<and> current (foldl parse_step parse_init [''01.01.2024 Lastschrift -10,00'', ''continuation'']) \<noteq> None
   \<and> map Textblock (parse_lines ([''01.01.2024 Lastschrift -10,00'', ''continuation'']
          @ ''02.01.2024 Kontostand am 02.01.2024'' # [''more'']))
      = [''continuation'', ''more'']"
  by code_simp

text \<open>
  C6, amended: once a line that does not start with a date and has an end marker
  (in any case of letters) is seen while a booking is open, that booking is closed as
  it stands, the marker line is in no text, and the lines after it change nothing: the
  result is that of the lines before the marker. A header, a continuation line and a
  marker line give one booking.
\<close>

theorem end_marker_stops:
  assumes "current (foldl parse_step parse_init pre) = Some c"
      and "\<not> DATE_RE_match (rstrip m)"
      and "END_MARKER_RE_search (rstrip m)"
  shows "parse_lines (pre @ m # rest) = bookings (foldl parse_step parse_init pre) @ [c]
         \<and> parse_lines (pre @ m # rest) = parse_lines pre"
proof -
  let ?st = "foldl parse_step parse_init pre"
  let ?st' = "\<lparr> bookings = bookings ?st @ [c], current = None, stopped = True \<rparr>"
  have "pstate_ok ?st" by (rule foldl_parse_step_ok [OF parse_init_ok])
  with assms(1) have running: "\<not> stopped ?st" by (auto simp: pstate_ok_def)
  with assms have step: "parse_step ?st m = ?st'"
    by (simp add: parse_step_def)
  have "foldl parse_step parse_init (pre @ m # rest) = foldl parse_step (parse_step ?st m) rest"
    by simp
  also have "\<dots> = ?st'" unfolding step by (rule foldl_parse_step_stopped) simp
  finally have "parse_lines (pre @ m # rest) = close_current ?st'"
    by (simp add: parse_lines_def)
  then have 1: "parse_lines (pre @ m # rest) = bookings ?st @ [c]"
    by (simp add: close_current_def)
  have 2: "parse_lines pre = bookings ?st @ [c]"
    using assms(1) by (simp add: parse_lines_def close_current_def)
  from 1 2 show ?thesis by simp
qed

theorem end_marker_stops_witness:
  "parse_lines ([''01.01.2024 Lastschrift -10,00'', ''continuation'']
       @ ''KONTOSTAND am 31.01.2024'' # [''02.01.2024 Gutschrift 5,00'', ''later''])
     = [\<lparr> Datum = ''01.01.2024'', Buchungsart = ''Lastschrift -10,00'', Textblock = ''continuation'',
          Soll = ''-10.00'', Haben = [], Name = None, Beschreibung = None, Quelle = None \<rparr>]"
proof -
  have 1: "current (foldl parse_step parse_init [''01.01.2024 Lastschrift -10,00'', ''continuation''])
      = Some \<lparr> Datum = ''01.01.2024'', Buchungsart = ''Lastschrift -10,00'', Textblock = ''continuation'',
          Soll = ''-10.00'', Haben = [], Name = None, Beschreibung = None, Quelle = None \<rparr>"
    by code_simp
  have 2: "\<not> DATE_RE_match (rstrip ''KONTOSTAND am 31.01.2024'')" by code_simp
  have 3: "END_MARKER_RE_search (rstrip ''KONTOSTAND am 31.01.2024'')" by code_simp
  have 4: "bookings (foldl parse_step parse_init [''01.01.2024 Lastschrift -10,00'', ''continuation'']) = []"
    by code_simp
  from end_marker_stops [OF 1 2 3, of "[''02.01.2024 Gutschrift 5,00'', ''later'']"] 4
  show ?thesis by simp
qed

section \<open>A booking no rule matches, without the operator (C7)\<close>

text \<open>
  C7, as stated: with \<open>interactive\<close> false, a booking that no rule matches gets its
  whole text as name and the empty description. It does not: the assignment
  \<open>b["Name"] = text\<close> stands under \<open>if interactive:\<close>, and a booking with the text
  \<open>PAYPAL EUROPE 123 Einkauf\<close>, no rule document, comes back without a name.
\<close>

theorem enrich_noninteractive_counterexample:
  "\<not> (case enrich_bookings plain_env False [paypal] \<lparr> files = Map.empty, stdin = [] \<rparr> of
        Inl err \<Rightarrow> False
      | Inr (bs, w) \<Rightarrow>
          map Name bs = [Some (Textblock paypal)] \<and> map Beschreibung bs = [Some []])"
  by code_simp

text \<open>
  C7, amended: with \<open>interactive\<close> false, bookings that no rule of the document matches
  are returned as they were, \<open>Name\<close> and \<open>Beschreibung\<close> as absent as before, and
  neither the document nor the input is touched.
\<close>

theorem enrich_noninteractive_unchanged:
  assumes "load_reference_db e (files w) ''split_rules.json'' = Inr rules"
      and "\<forall>b \<in> set bs. apply_split_rule (strip (Textblock b)) rules = None"
  shows "enrich_bookings e False bs w = Inr (bs, w)"
  using assms
  by (induction bs) (simp_all add: enrich_booking_def enrich_unmatched_False)

theorem enrich_noninteractive_unchanged_witness:
  "enrich_bookings plain_env False [paypal]
       \<lparr> files = [''split_rules.json'' \<mapsto> [(''AMAZON'', ''Amazon'')]], stdin = [] \<rparr>
     = Inr ([paypal], \<lparr> files = [''split_rules.json'' \<mapsto> [(''AMAZON'', ''Amazon'')]], stdin = [] \<rparr>)
   \<and> Name paypal = None \<and> Beschreibung paypal = None"
proof -
  have 1: "load_reference_db plain_env
             (files \<lparr> files = [''split_rules.json'' \<mapsto> [(''AMAZON'', ''Amazon'')]], stdin = [] \<rparr>)
             ''split_rules.json'' = Inr [(''AMAZON'', ''Amazon'')]"
    by (simp add: load_reference_db_def plain_env_def)
  have 2: "\<forall>b \<in> set [paypal].
             apply_split_rule (strip (Textblock b)) [(''AMAZON'', ''Amazon'')] = None"
    by code_simp
  have 3: "Name paypal = None \<and> Beschreibung paypal = None" by (simp add: paypal_def)
  from enrich_noninteractive_unchanged [OF 1 2] 3 show ?thesis by simp
qed

section \<open>Saving and loading the rule document (C8)\<close>

text \<open>
  \<open>save_reference\<close> writes the document with \<open>json.dump(db, f, indent=2,
  ensure_ascii=False)\<close> and \<open>load_reference_db\<close> reads it with \<open>json.load(f)\<close>. For the
  round trip the two library functions are written out for rule documents, objects of
  strings: the encoder with its escapes, its separators and its indentation of two
  spaces, and the decoder, which skips white space, reads strings with their escapes,
  refuses a raw control character, and lets a key read twice keep its place with the
  later value. A file holds its text.
\<close>

definition hexdigit :: "int \<Rightarrow> char" where
  \<comment> \<open>one digit of \<open>'{0:04x}'.format(n)\<close>\<close>
  "hexdigit k = (if k < 10 then char_of (48 + k) else char_of (87 + k))"

definition escape_char :: "char \<Rightarrow> string" where
  \<comment> \<open>\<open>ESCAPE_DCT\<close> of \<open>json.encoder\<close>: what \<open>encode_basestring\<close> writes for one character\<close>
  "escape_char c =
     (if c = CHR 0x22 then [CHR 0x5C, CHR 0x22]
      else if c = CHR 0x5C then [CHR 0x5C, CHR 0x5C]
      else if c = CHR 0x0A then [CHR 0x5C, CHR ''n'']
      else if c = CHR 0x0D then [CHR 0x5C, CHR ''r'']
      else if c = CHR 0x09 then [CHR 0x5C, CHR ''t'']
      else if c = CHR 0x08 then [CHR 0x5C, CHR ''b'']
      else if c = CHR 0x0C then [CHR 0x5C, CHR ''f'']
      else if (of_char c :: int) < 32
      then [CHR 0x5C, CHR ''u'', CHR ''0'', CHR ''0'',
            hexdigit (of_char c div 16), hexdigit (of_char c mod 16)]
      else [c])"

definition encode_basestring :: "string \<Rightarrow> string" where
  "encode_basestring s = CHR 0x22 # concat (map escape_char s) @ [CHR 0x22]"

definition json_item :: "string \<times> string \<Rightarrow> string" where
  \<comment> \<open>key, the separator \<open>': '\<close>, value\<close>
  "json_item p = encode_basestring (fst p) @ '': '' @ encode_basestring (snd p)"

definition json_dumps :: "rules \<Rightarrow> string" where
  \<comment> \<open>what \<open>json.dump(db, f, indent=2, ensure_ascii=False)\<close> writes for a dictionary of strings\<close>
  "json_dumps db =
     (case db of
        [] \<Rightarrow> ''{}''
      | p # ps \<Rightarrow>
          ''{'' @ [CHR 0x0A] @ ''  '' @ json_item p
            @ concat (map (\<lambda>q. '','' @ [CHR 0x0A] @ ''  '' @ json_item q) ps)
            @ [CHR 0x0A] @ ''}'')"

definition json_ws :: "char \<Rightarrow> bool" where
  \<comment> \<open>\<open>WHITESPACE = [ \t\n\r]*\<close>\<close>
  "json_ws c = (c = CHR '' '' \<or> c = CHR 0x09 \<or> c = CHR 0x0A \<or> c = CHR 0x0D)"

definition skip_ws :: "string \<Rightarrow> string" where
  "skip_ws s = dropWhile json_ws s"

definition hexval :: "char \<Rightarrow> int option" where
  "hexval c = (let n = (of_char c :: int) in
     if 48 \<le> n \<and> n \<le> 57 then Some (n - 48)
     else if 97 \<le> n \<and> n \<le> 102 then Some (n - 87)
     else if 65 \<le> n \<and> n \<le> 70 then Some (n - 55)
     else None)"

definition decode_uXXXX :: "char \<Rightarrow> char \<Rightarrow> char \<Rightarrow> char \<Rightarrow> char option" where
  \<comment> \<open>four hexadecimal digits; a code point from 256 on is outside the strings modelled\<close>
  "decode_uXXXX a b c d =
     (case (hexval a, hexval b, hexval c, hexval d) of
        (Some x, Some y, Some z, Some w) \<Rightarrow>
          (let uni = ((x * 16 + y) * 16 + z) * 16 + w
           in if uni < 256 then Some (char_of uni) else None)
      | _ \<Rightarrow> None)"

definition backslash :: "char \<Rightarrow> char option" where
  \<comment> \<open>\<open>BACKSLASH\<close> of \<open>json.decoder\<close>\<close>
  "backslash e =
     (if e = CHR 0x22 then Some (CHR 0x22)
      else if e = CHR 0x5C then Some (CHR 0x5C)
      else if e = CHR ''/'' then Some (CHR ''/'')
      else if e = CHR ''b'' then Some (CHR 0x08)
      else if e = CHR ''f'' then Some (CHR 0x0C)
      else if e = CHR ''n'' then Some (CHR 0x0A)
      else if e = CHR ''r'' then Some (CHR 0x0D)
      else if e = CHR ''t'' then Some (CHR 0x09)
      else None)"

definition cons_result :: "char \<Rightarrow> (string \<times> string) option \<Rightarrow> (string \<times> string) option" where
  "cons_result c r = map_option (\<lambda>(t, rest). (c # t, rest)) r"

fun scanstring :: "string \<Rightarrow> (string \<times> string) option" where
  \<comment> \<open>\<open>scanstring(s, end, strict=True)\<close> from behind the opening quote: the string and
      what follows its closing quote\<close>
  "scanstring [] = None"
| "scanstring (c # cs) =
     (if c = CHR 0x22 then Some ([], cs)
      else if c = CHR 0x5C
      then (case cs of
              [] \<Rightarrow> None
            | e # r \<Rightarrow>
                if e = CHR ''u''
                then (case r of
                        h1 # h2 # h3 # h4 # r' \<Rightarrow>
                          (case decode_uXXXX h1 h2 h3 h4 of
                             None \<Rightarrow> None
                           | Some ch \<Rightarrow> cons_result ch (scanstring r'))
                      | _ \<Rightarrow> None)
                else (case backslash e of
                        None \<Rightarrow> None
                      | Some ch \<Rightarrow> cons_result ch (scanstring r)))
      else if (of_char c :: int) < 32 then None
      else cons_result c (scanstring cs))"

lemma scanstring_shorter: "scanstring s = Some (t, r) \<Longrightarrow> length r < length s"
proof (induction s arbitrary: t rule: scanstring.induct)
  case 1
  then show ?case by simp
next
  case (2 c cs)
  show ?case
  proof (cases "c = CHR 0x22")
    case True
    with "2.prems" show ?thesis by simp
  next
    case quote: False
    show ?thesis
    proof (cases "c = CHR 0x5C")
      case False
      with quote "2.prems" obtain t' where "scanstring cs = Some (t', r)"
        by (auto simp: cons_result_def split: if_splits)
      with "2.IH"(3) [OF quote False] quote False "2.prems" show ?thesis
        by (auto split: if_splits)
    next
      case True
      show ?thesis
      proof (cases cs)
        case Nil
        with quote True "2.prems" show ?thesis by simp
      next
        case (Cons e r0)
        show ?thesis
        proof (cases "e = CHR ''u''")
          case False
          with quote True Cons "2.prems" obtain ch t' where
            "backslash e = Some ch" "scanstring r0 = Some (t', r)"
            by (auto simp: cons_result_def split: option.splits)
          with "2.IH"(2) [OF quote True Cons False] Cons show ?thesis by fastforce
        next
          case u: True
          with quote True Cons "2.prems" obtain h1 h2 h3 h4 r' ch t' where
            r0: "r0 = h1 # h2 # h3 # h4 # r'" and
            d: "decode_uXXXX h1 h2 h3 h4 = Some ch" and
            s: "scanstring r' = Some (t', r)"
            by (auto simp: cons_result_def split: option.splits list.splits)
          have "length r < length r'"
            by (rule "2.IH"(1) [OF quote True Cons u r0 refl refl refl d s])
          with Cons r0 show ?thesis by simp
        qed
      qed
    qed
  qed
qed

lemma skip_ws_Cons_shorter: "skip_ws s = c # r \<Longrightarrow> length r < length s"
proof -
  assume "skip_ws s = c # r"
  then have "length (dropWhile json_ws s) = Suc (length r)" by (simp add: skip_ws_def)
  with length_dropWhile_le [of json_ws s] show ?thesis by simp
qed

function members :: "rules \<Rightarrow> string \<Rightarrow> (rules \<times> string) option" where
  \<comment> \<open>the loop of \<open>JSONObject\<close>, from behind the opening quote of a key: the pairs read and
      what follows the closing brace. A value that is not a string is outside the
      documents modelled.\<close>
  "members acc s =
     (case scanstring s of
        None \<Rightarrow> None
      | Some (key, s1) \<Rightarrow>
          (case skip_ws s1 of
             [] \<Rightarrow> None
           | c1 # s2 \<Rightarrow>
               if c1 \<noteq> CHR '':'' then None
               else (case skip_ws s2 of
                       [] \<Rightarrow> None
                     | c2 # s3 \<Rightarrow>
                         if c2 \<noteq> CHR 0x22 then None
                         else (case scanstring s3 of
                                 None \<Rightarrow> None
                               | Some (val, s4) \<Rightarrow>
                                   (case skip_ws s4 of
                                      [] \<Rightarrow> None
                                    | c3 # s5 \<Rightarrow>
                                        if c3 = CHR ''}'' then Some (acc @ [(key, val)], s5)
                                        else if c3 = CHR '',''
                                        then (case skip_ws s5 of
                                                [] \<Rightarrow> None
                                              | c4 # s6 \<Rightarrow>
                                                  if c4 = CHR 0x22
                                                  then members (acc @ [(key, val)]) s6
                                                  else None)
                                        else None)))))"
  by pat_completeness auto
termination
proof (relation "measure (\<lambda>(acc, s). length s)", goal_cases)
  case 1
  then show ?case by simp
next
  case (2 acc s x2 key s1 c1 s2 c2 s3 x2a val s4 c3 s5 c4 s6)
  from 2 have "length s1 < length s" "length s2 < length s1" "length s3 < length s2"
    "length s4 < length s3" "length s5 < length s4" "length s6 < length s5"
    by (auto dest: scanstring_shorter skip_ws_Cons_shorter)
  then show ?case by simp
qed

declare members.simps [simp del]

definition dict_of_pairs :: "rules \<Rightarrow> rules" where
  \<comment> \<open>\<open>dict(pairs)\<close>: a key read again takes the new value and keeps its place\<close>
  "dict_of_pairs ps = foldl (\<lambda>d p. dict_set d (fst p) (snd p)) [] ps"

definition json_end :: "rules \<Rightarrow> string \<Rightarrow> rules option" where
  \<comment> \<open>only white space may follow the document\<close>
  "json_end ps rest = (if skip_ws rest = [] then Some (dict_of_pairs ps) else None)"

definition json_loads :: "string \<Rightarrow> rules option" where
  \<comment> \<open>\<open>json.load(f)\<close> on the text of a file, for a document that is an object of strings;
      \<open>None\<close> when it raises. Other JSON values are outside the documents modelled.\<close>
  "json_loads s =
     (case skip_ws s of
        [] \<Rightarrow> None
      | c # s1 \<Rightarrow>
          if c \<noteq> CHR ''{'' then None
          else (case skip_ws s1 of
                  [] \<Rightarrow> None
                | c2 # s2 \<Rightarrow>
                    if c2 = CHR ''}'' then json_end [] s2
                    else if c2 = CHR 0x22
                    then (case members [] s2 of
                            None \<Rightarrow> None
                          | Some (ps, s3) \<Rightarrow> json_end ps s3)
                    else None))"

definition json_env :: "(string \<Rightarrow> string \<Rightarrow> real) \<Rightarrow> string env" where
  \<comment> \<open>a file holds its text; \<open>json\<close> as modelled here, any similarity\<close>
  "json_env r = \<lparr> json_load = json_loads, json_dump = json_dumps, ratio = r \<rparr>"

lemma hexval_hexdigit: "0 \<le> k \<Longrightarrow> k < 16 \<Longrightarrow> hexval (hexdigit k) = Some k"
proof -
  assume "0 \<le> k" "k < 16"
  then have "k = 0 \<or> k = 1 \<or> k = 2 \<or> k = 3 \<or> k = 4 \<or> k = 5 \<or> k = 6 \<or> k = 7
      \<or> k = 8 \<or> k = 9 \<or> k = 10 \<or> k = 11 \<or> k = 12 \<or> k = 13 \<or> k = 14 \<or> k = 15"
    by arith
  then show ?thesis by (elim disjE) (simp_all add: hexval_def hexdigit_def)
qed

lemma of_char_int_nonneg: "0 \<le> (of_char c :: int)"
  by (metis of_nat_of_char of_nat_0_le_iff)

lemma decode_control:
  assumes "(of_char c :: int) < 32"
  shows "decode_uXXXX CHR ''0'' CHR ''0'' (hexdigit (of_char c div 16)) (hexdigit (of_char c mod 16))
           = Some c"
proof -
  let ?n = "of_char c :: int"
  have n0: "0 \<le> ?n" by (rule of_char_int_nonneg)
  have 1: "hexval (hexdigit (?n div 16)) = Some (?n div 16)"
    using assms n0 by (intro hexval_hexdigit) auto
  have 2: "hexval (hexdigit (?n mod 16)) = Some (?n mod 16)"
    by (intro hexval_hexdigit) auto
  have 3: "hexval CHR ''0'' = Some 0" by (simp add: hexval_def)
  have "char_of ?n = c" by simp
  with 1 2 3 assms show ?thesis by (simp add: decode_uXXXX_def)
qed

lemma scanstring_escape_char:
  "scanstring (escape_char c @ rest) = cons_result c (scanstring rest)"
proof (cases "(of_char c :: int) < 32")
  case True
  then have nq: "c \<noteq> CHR 0x22" "c \<noteq> CHR 0x5C" by auto
  show ?thesis using decode_control [OF True] True nq
    by (auto simp: escape_char_def backslash_def)
next
  case False
  then have "c \<noteq> CHR 0x0A" "c \<noteq> CHR 0x0D" "c \<noteq> CHR 0x09" "c \<noteq> CHR 0x08" "c \<noteq> CHR 0x0C"
    by auto
  with False show ?thesis
    by (auto simp: escape_char_def backslash_def)
qed

lemma scanstring_escaped:
  "scanstring (concat (map escape_char s) @ CHR 0x22 # rest) = Some (s, rest)"
  by (induction s) (simp_all add: scanstring_escape_char cons_result_def)

lemma skip_ws_simps:
  "skip_ws (CHR '':'' # s) = CHR '':'' # s"
  "skip_ws (CHR 0x22 # s) = CHR 0x22 # s"
  "skip_ws (CHR '','' # s) = CHR '','' # s"
  "skip_ws (CHR ''}'' # s) = CHR ''}'' # s"
  "skip_ws (CHR ''{'' # s) = CHR ''{'' # s"
  "skip_ws (CHR '' '' # s) = skip_ws s"
  "skip_ws (CHR 0x0A # s) = skip_ws s"
  "skip_ws [] = []"
  by (simp_all add: skip_ws_def json_ws_def)

lemma members_items:
  "members acc
     (concat (map escape_char k) @ CHR 0x22 # '': '' @ encode_basestring v
        @ concat (map (\<lambda>q. '','' @ [CHR 0x0A] @ ''  '' @ json_item q) ps)
        @ [CHR 0x0A] @ ''}'' @ rest)
   = Some (acc @ (k, v) # ps, rest)"
proof (induction ps arbitrary: acc k v)
  case Nil
  show ?case
    by (subst members.simps)
       (simp add: scanstring_escaped skip_ws_simps encode_basestring_def)
next
  case (Cons q qs)
  obtain k' v' where q: "q = (k', v')" by (cases q)
  from Cons.IH [of "acc @ [(k, v)]" k' v'] show ?case
    by (subst members.simps)
       (simp add: scanstring_escaped skip_ws_simps encode_basestring_def json_item_def q)
qed

lemma dict_set_fresh: "k \<notin> fst ` set d \<Longrightarrow> dict_set d k v = d @ [(k, v)]"
  by (induction d k v rule: dict_set.induct) auto

lemma foldl_dict_set_distinct:
  "distinct (map fst (d @ ps)) \<Longrightarrow> foldl (\<lambda>d p. dict_set d (fst p) (snd p)) d ps = d @ ps"
proof (induction ps arbitrary: d)
  case Nil
  then show ?case by simp
next
  case (Cons p ps)
  from Cons.prems have "fst p \<notin> fst ` set d" by auto
  then have "dict_set d (fst p) (snd p) = d @ [p]" by (simp add: dict_set_fresh)
  moreover from Cons.prems have "distinct (map fst ((d @ [p]) @ ps))" by simp
  ultimately show ?case using Cons.IH [of "d @ [p]"] by simp
qed

lemma dict_of_pairs_distinct: "distinct (map fst d) \<Longrightarrow> dict_of_pairs d = d"
  using foldl_dict_set_distinct [of "[]" d] by (simp add: dict_of_pairs_def)

lemma dict_set_keys: "set (map fst (dict_set d k v)) = insert k (set (map fst d))"
  by (induction d k v rule: dict_set.induct) auto

lemma dict_set_distinct: "distinct (map fst d) \<Longrightarrow> distinct (map fst (dict_set d k v))"
proof (induction d k v rule: dict_set.induct)
  case (1 k v)
  then show ?case by simp
next
  case (2 k' v' db k v)
  then show ?case using dict_set_keys [of db k v] by (auto simp del: set_map)
qed

lemma dict_of_pairs_keys_distinct: "distinct (map fst (dict_of_pairs ps))"
proof -
  have "distinct (map fst d) \<Longrightarrow> distinct (map fst (foldl (\<lambda>d p. dict_set d (fst p) (snd p)) d ps))"
    for d
    by (induction ps arbitrary: d) (simp_all add: dict_set_distinct)
  from this [of "[]"] show ?thesis by (simp add: dict_of_pairs_def)
qed

lemma json_loads_distinct: "json_loads s = Some d \<Longrightarrow> distinct (map fst d)"
  by (auto simp: json_loads_def json_end_def dict_of_pairs_keys_distinct
      split: list.splits if_splits option.splits)

lemma json_loads_dumps: "json_loads (json_dumps d) = Some (dict_of_pairs d)"
proof (cases d)
  case Nil
  then show ?thesis
    by (simp add: json_loads_def json_dumps_def json_end_def skip_ws_simps)
next
  case (Cons p ps)
  obtain k v where p: "p = (k, v)" by (cases p)
  from members_items [of "[]" k v ps "[]"] show ?thesis
    unfolding Cons p
    by (simp add: json_loads_def json_dumps_def json_item_def encode_basestring_def
        skip_ws_simps json_end_def)
qed

lemma dict_set_map_of: "map_of (dict_set db k v) = (map_of db)(k \<mapsto> v)"
  by (induction db k v rule: dict_set.induct) auto

lemma load_reference_db_distinct:
  "load_reference_db (json_env r) fs path = Inr db \<Longrightarrow> distinct (map fst db)"
  by (auto simp: load_reference_db_def json_env_def dest: json_loads_distinct
      split: option.splits)

text \<open>
  C8. A path with no file loads as the empty dictionary, not as an error. When the
  document loads as \<open>db\<close>, \<open>save_reference\<close> succeeds, and a load after it returns
  \<open>db\<close> with the pair set: the key mapped to the value, every other key as before, in
  the order of the document, a new key last. No other file changes. The text written
  for a dictionary reads back as that dictionary.
\<close>

theorem save_reference_roundtrip:
  "(fs path = None \<longrightarrow> load_reference_db (json_env r) fs path = Inr [])
   \<and> (load_reference_db (json_env r) fs path = Inr db
      \<longrightarrow> (\<exists>fs'. save_reference (json_env r) fs key val path = Inr fs'
                \<and> fs' path = Some (json_dumps (dict_set db key val))
                \<and> load_reference_db (json_env r) fs' path = Inr (dict_set db key val)
                \<and> (\<forall>p. p \<noteq> path \<longrightarrow> fs' p = fs p)))
   \<and> (distinct (map fst d) \<longrightarrow> json_loads (json_dumps d) = Some d)
   \<and> map_of (dict_set db key val) = (map_of db)(key \<mapsto> val)"
proof (intro conjI impI)
  assume "fs path = None"
  then show "load_reference_db (json_env r) fs path = Inr []"
    by (simp add: load_reference_db_def)
next
  assume loaded: "load_reference_db (json_env r) fs path = Inr db"
  then have "distinct (map fst db)" by (rule load_reference_db_distinct)
  then have "distinct (map fst (dict_set db key val))" by (rule dict_set_distinct)
  then have "json_loads (json_dumps (dict_set db key val)) = Some (dict_set db key val)"
    by (simp add: json_loads_dumps dict_of_pairs_distinct)
  with loaded show "\<exists>fs'. save_reference (json_env r) fs key val path = Inr fs'
      \<and> fs' path = Some (json_dumps (dict_set db key val))
      \<and> load_reference_db (json_env r) fs' path = Inr (dict_set db key val)
      \<and> (\<forall>p. p \<noteq> path \<longrightarrow> fs' p = fs p)"
    by (simp add: save_reference_def load_reference_db_def json_env_def)
next
  assume "distinct (map fst d)"
  then show "json_loads (json_dumps d) = Some d"
    by (simp add: json_loads_dumps dict_of_pairs_distinct)
next
  show "map_of (dict_set db key val) = (map_of db)(key \<mapsto> val)"
    by (rule dict_set_map_of)
qed

theorem save_reference_roundtrip_witness:
  "load_reference_db (json_env (\<lambda>a b. 0)) Map.empty ''split_rules.json'' = Inr []
   \<and> json_dumps [(''REWE'', ''Rewe''), (''ALDI'', ''Aldi'')]
       = ''{'' @ [CHR 0x0A] @ ''  '' @ [CHR 0x22] @ ''REWE'' @ [CHR 0x22] @ '': ''
           @ [CHR 0x22] @ ''Rewe'' @ [CHR 0x22] @ '','' @ [CHR 0x0A] @ ''  ''
           @ [CHR 0x22] @ ''ALDI'' @ [CHR 0x22] @ '': '' @ [CHR 0x22] @ ''Aldi'' @ [CHR 0x22]
           @ [CHR 0x0A] @ ''}''
   \<and> (\<exists>fs'. save_reference (json_env (\<lambda>a b. 0))
               [''split_rules.json'' \<mapsto> ''{ '' @ [CHR 0x22] @ ''REWE'' @ [CHR 0x22] @ '':''
                                            @ [CHR 0x22] @ ''Rewe'' @ [CHR 0x22] @ ''}'']
               ''ALDI'' ''Aldi'' ''split_rules.json'' = Inr fs'
            \<and> fs' ''split_rules.json''
               = Some (json_dumps [(''REWE'', ''Rewe''), (''ALDI'', ''Aldi'')])
            \<and> load_reference_db (json_env (\<lambda>a b. 0)) fs' ''split_rules.json''
               = Inr [(''REWE'', ''Rewe''), (''ALDI'', ''Aldi'')])
   \<and> json_loads (json_dumps [(''a'' @ [CHR 0x22, CHR 0x5C, CHR 0x09, CHR 0x01], ''b''), ([], [])])
       = Some [(''a'' @ [CHR 0x22, CHR 0x5C, CHR 0x09, CHR 0x01], ''b''), ([], [])]"
proof -
  have none: "(Map.empty :: string fs) ''split_rules.json'' = None" by simp
  have loaded:
    "load_reference_db (json_env (\<lambda>a b. 0))
       [''split_rules.json'' \<mapsto> ''{ '' @ [CHR 0x22] @ ''REWE'' @ [CHR 0x22] @ '':''
                                    @ [CHR 0x22] @ ''Rewe'' @ [CHR 0x22] @ ''}'']
       ''split_rules.json'' = Inr [(''REWE'', ''Rewe'')]"
    by code_simp
  have upd: "dict_set [(''REWE'', ''Rewe'')] ''ALDI'' ''Aldi'' = [(''REWE'', ''Rewe''), (''ALDI'', ''Aldi'')]"
    by simp
  have dist: "distinct (map fst [(''a'' @ [CHR 0x22, CHR 0x5C, CHR 0x09, CHR 0x01], ''b''), ([], [])])"
    by simp
  have written: "json_dumps [(''REWE'', ''Rewe''), (''ALDI'', ''Aldi'')]
       = ''{'' @ [CHR 0x0A] @ ''  '' @ [CHR 0x22] @ ''REWE'' @ [CHR 0x22] @ '': ''
           @ [CHR 0x22] @ ''Rewe'' @ [CHR 0x22] @ '','' @ [CHR 0x0A] @ ''  ''
           @ [CHR 0x22] @ ''ALDI'' @ [CHR 0x22] @ '': '' @ [CHR 0x22] @ ''Aldi'' @ [CHR 0x22]
           @ [CHR 0x0A] @ ''}''"
    by code_simp
  from save_reference_roundtrip
         [of Map.empty "''split_rules.json''" "\<lambda>a b. 0" "[]" "''ALDI''" "''Aldi''" "[]"] none
  have a: "load_reference_db (json_env (\<lambda>a b. 0)) Map.empty ''split_rules.json'' = Inr []"
    by blast
  from save_reference_roundtrip
         [of "[''split_rules.json'' \<mapsto> ''{ '' @ [CHR 0x22] @ ''REWE'' @ [CHR 0x22] @ '':''
                                    @ [CHR 0x22] @ ''Rewe'' @ [CHR 0x22] @ ''}'']"
             "''split_rules.json''" "\<lambda>a b. 0" "[(''REWE'', ''Rewe'')]" "''ALDI''" "''Aldi''"
             "[(''a'' @ [CHR 0x22, CHR 0x5C, CHR 0x09, CHR 0x01], ''b''), ([], [])]"]
       loaded dist
  have b: "\<exists>fs'. save_reference (json_env (\<lambda>a b. 0))
               [''split_rules.json'' \<mapsto> ''{ '' @ [CHR 0x22] @ ''REWE'' @ [CHR 0x22] @ '':''
                                            @ [CHR 0x22] @ ''Rewe'' @ [CHR 0x22] @ ''}'']
               ''ALDI'' ''Aldi'' ''split_rules.json'' = Inr fs'
            \<and> fs' ''split_rules.json''
               = Some (json_dumps (dict_set [(''REWE'', ''Rewe'')] ''ALDI'' ''Aldi''))
            \<and> load_reference_db (json_env (\<lambda>a b. 0)) fs' ''split_rules.json''
               = Inr (dict_set [(''REWE'', ''Rewe'')] ''ALDI'' ''Aldi'')"
    and c: "json_loads (json_dumps [(''a'' @ [CHR 0x22, CHR 0x5C, CHR 0x09, CHR 0x01], ''b''), ([], [])])
       = Some [(''a'' @ [CHR 0x22, CHR 0x5C, CHR 0x09, CHR 0x01], ''b''), ([], [])]"
    by blast+
  from b have b': "\<exists>fs'. save_reference (json_env (\<lambda>a b. 0))
               [''split_rules.json'' \<mapsto> ''{ '' @ [CHR 0x22] @ ''REWE'' @ [CHR 0x22] @ '':''
                                            @ [CHR 0x22] @ ''Rewe'' @ [CHR 0x22] @ ''}'']
               ''ALDI'' ''Aldi'' ''split_rules.json'' = Inr fs'
            \<and> fs' ''split_rules.json''
               = Some (json_dumps [(''REWE'', ''Rewe''), (''ALDI'', ''Aldi'')])
            \<and> load_reference_db (json_env (\<lambda>a b. 0)) fs' ''split_rules.json''
               = Inr [(''REWE'', ''Rewe''), (''ALDI'', ''Aldi'')]"
    unfolding upd .
  from a written b' c show ?thesis by (intro conjI)
qed

section \<open>The shortlist of similar names (C9)\<close>

text \<open>
  C9. The shortlist \<open>get_fuzzy_declarations\<close> returns for a text holds only known
  display names, each with its score against the text, all of score at least 0.4; it is
  in descending order of score and has at most 5 entries.
\<close>

theorem fuzzy_shortlist:
  assumes "get_fuzzy_declarations e fs text (2 / 5) 5 = Inr scored"
  shows "(\<forall>x \<in> set scored. 2 / 5 \<le> snd x \<and> snd x = fuzzy_score e text (fst x))
         \<and> (\<exists>names. load_declarations e fs ''split_rules.json'' = Inr names
                \<and> fst ` set scored \<subseteq> set names)
         \<and> sorted_wrt (\<lambda>a b. snd b \<le> snd a) scored
         \<and> length scored \<le> 5"
proof -
  from assms obtain names where
    names: "load_declarations e fs ''split_rules.json'' = Inr names" and
    scored: "scored = take 5 (sort_key (\<lambda>x. - snd x) (filter (\<lambda>x. 2 / 5 \<le> snd x)
                        (map (\<lambda>name. (name, fuzzy_score e text name)) names)))"
    by (auto simp: get_fuzzy_declarations_def split: sum.splits)
  let ?kept = "filter (\<lambda>x. 2 / 5 \<le> snd x) (map (\<lambda>name. (name, fuzzy_score e text name)) names)"
  have sub: "set scored \<subseteq> set ?kept"
    unfolding scored using set_take_subset [of 5 "sort_key (\<lambda>x. - snd x) ?kept"] by simp
  have "sorted (map (\<lambda>x. - snd x) (sort_key (\<lambda>x. - snd x) ?kept))"
    by (rule sorted_sort_key)
  then have "sorted_wrt (\<lambda>a b. snd b \<le> snd a) (sort_key (\<lambda>x. - snd x) ?kept)"
    by (simp add: sorted_map)
  then have srt: "sorted_wrt (\<lambda>a b. snd b \<le> snd a) scored"
    unfolding scored by (rule sorted_wrt_take)
  have len: "length scored \<le> 5" unfolding scored by simp
  from sub have "\<forall>x \<in> set scored. 2 / 5 \<le> snd x \<and> snd x = fuzzy_score e text (fst x)"
    by auto
  moreover from sub have "fst ` set scored \<subseteq> set names" by auto
  ultimately show ?thesis using names srt len by blast
qed

theorem fuzzy_shortlist_witness:
  "get_fuzzy_declarations plain_env [''split_rules.json'' \<mapsto> known_rules] ''PAYPAL'' (2 / 5) 5
     = Inr [(''PayPal'', 1), (''Parken'', 1 / 2), (''Penny'', 1 / 2), (''Pizza'', 1 / 2),
            (''Post'', 1 / 2)]
   \<and> list_all (\<lambda>x. 2 / 5 \<le> snd x)
        [(''PayPal'', 1 :: real), (''Parken'', 1 / 2), (''Penny'', 1 / 2), (''Pizza'', 1 / 2),
         (''Post'', 1 / 2)]
   \<and> sorted_wrt (\<lambda>a b. snd b \<le> snd a)
        [(''PayPal'', 1 :: real), (''Parken'', 1 / 2), (''Penny'', 1 / 2), (''Pizza'', 1 / 2),
         (''Post'', 1 / 2)]"
proof -
  have run: "get_fuzzy_declarations plain_env [''split_rules.json'' \<mapsto> known_rules]
               ''PAYPAL'' (2 / 5) 5
             = Inr [(''PayPal'', 1), (''Parken'', 1 / 2), (''Penny'', 1 / 2), (''Pizza'', 1 / 2),
                    (''Post'', 1 / 2)]"
    by code_simp
  from fuzzy_shortlist [OF run] run show ?thesis
    by (simp add: list_all_iff)
qed

section \<open>A rule with an empty display name (C10)\<close>

lemma apply_split_rule_first:
  assumes "\<forall>(k, v) \<in> set pre. \<not> contains k text" and "contains key text"
  shows "apply_split_rule text (pre @ (key, val) # post)
           = Some (val, strip (drop (length key) text))"
  using assms by (induction pre) auto

text \<open>
  C10, as stated: whenever the document has an entry with the empty display name and
  the text contains its key, rule application returns the empty label. It does not when
  an earlier entry matches too: with \<open>A \<mapsto> Alpha\<close> before \<open>AB \<mapsto> \<close> (empty), the text
  \<open>AB\<close> is labelled \<open>Alpha\<close>.
\<close>

theorem empty_label_counterexample:
  "(''AB'', []) \<in> set [(''A'', ''Alpha''), (''AB'', [])] \<and> contains ''AB'' ''AB''
   \<and> apply_split_rule ''AB'' [(''A'', ''Alpha''), (''AB'', [])] = Some (''Alpha'', ''B'')"
  by code_simp

text \<open>
  C10, amended: when the entry with the empty display name is the first entry of the
  document whose key occurs in the booking's text, rule application returns the empty
  label, and the enricher does what it does when no rule matches: it asks the operator,
  or, with \<open>interactive\<close> false, returns the booking as it was. The entry labels nothing.
\<close>

theorem empty_label_is_no_match:
  assumes "load_reference_db e (files w) ''split_rules.json'' = Inr (pre @ (key, []) # post)"
      and "\<forall>(k, v) \<in> set pre. \<not> contains k (strip (Textblock b))"
      and "contains key (strip (Textblock b))"
  shows "apply_split_rule (strip (Textblock b)) (pre @ (key, []) # post)
           = Some ([], strip (drop (length key) (strip (Textblock b))))
         \<and> enrich_booking e interactive b w
           = enrich_unmatched e interactive b (strip (Textblock b)) w
         \<and> enrich_booking e False b w = Inr (b, w)"
  using assms apply_split_rule_first [OF assms(2,3), of "[]" post]
  by (simp add: enrich_booking_def truthy_def enrich_unmatched_False)

theorem empty_label_is_no_match_witness:
  "apply_split_rule (strip (Textblock paypal)) ([(''AMAZON'', ''Amazon'')] @ (''PAYPAL'', []) # [(''EUROPE'', ''Europe'')])
     = Some ([], strip (drop (length ''PAYPAL'') (strip (Textblock paypal))))
   \<and> enrich_booking plain_env True paypal
        \<lparr> files = [''split_rules.json'' \<mapsto> [(''AMAZON'', ''Amazon''), (''PAYPAL'', []), (''EUROPE'', ''Europe'')]],
          stdin = [''''] \<rparr>
      = enrich_unmatched plain_env True paypal (strip (Textblock paypal))
        \<lparr> files = [''split_rules.json'' \<mapsto> [(''AMAZON'', ''Amazon''), (''PAYPAL'', []), (''EUROPE'', ''Europe'')]],
          stdin = [''''] \<rparr>
   \<and> enrich_booking plain_env False paypal
        \<lparr> files = [''split_rules.json'' \<mapsto> [(''AMAZON'', ''Amazon''), (''PAYPAL'', []), (''EUROPE'', ''Europe'')]],
          stdin = [''''] \<rparr>
      = Inr (paypal, \<lparr> files = [''split_rules.json'' \<mapsto> [(''AMAZON'', ''Amazon''), (''PAYPAL'', []), (''EUROPE'', ''Europe'')]],
          stdin = [''''] \<rparr>)"
proof -
  have 1: "load_reference_db plain_env
             (files \<lparr> files = [''split_rules.json'' \<mapsto> [(''AMAZON'', ''Amazon''), (''PAYPAL'', []), (''EUROPE'', ''Europe'')]],
                      stdin = [''''] \<rparr>)
             ''split_rules.json'' = Inr ([(''AMAZON'', ''Amazon'')] @ (''PAYPAL'', []) # [(''EUROPE'', ''Europe'')])"
    by (simp add: load_reference_db_def plain_env_def)
  have 2: "\<forall>(k, v) \<in> set [(''AMAZON'', ''Amazon'')]. \<not> contains k (strip (Textblock paypal))"
    by code_simp
  have 3: "contains ''PAYPAL'' (strip (Textblock paypal))"
    by code_simp
  show ?thesis by (rule empty_label_is_no_match [OF 1 2 3, where interactive = True])
qed

end
